theory Spec2Isabelle
  imports Complex_Main
begin

section \<open>JavaScript values used by the extension\<close>

text \<open>
  A JavaScript string is a sequence of UTF-16 code units; \<open>length\<close>, \<open>substring\<close>,
  \<open>padEnd\<close> and \<open>startsWith\<close> all count code units. A code unit is a natural number
  here, and \<open>str\<close> turns a literal of the source into its code units.
\<close>

type_synonym jsstring = "nat list"

definition str :: "string \<Rightarrow> jsstring" where
  "str s = map of_char s"

text \<open>
  White space as \<open>String.prototype.trim\<close> and \<open>parseInt\<close> strip it: the WhiteSpace and
  LineTerminator code points of ECMAScript.
\<close>

definition is_ws :: "nat \<Rightarrow> bool" where
  "is_ws c = (c \<in> set [9, 10, 11, 12, 13, 32, 160, 5760, 8192, 8193, 8194, 8195, 8196,
     8197, 8198, 8199, 8200, 8201, 8202, 8232, 8233, 8239, 8287, 12288, 65279])"

definition trim :: "jsstring \<Rightarrow> jsstring" where
  "trim s = rev (dropWhile is_ws (rev (dropWhile is_ws s)))"

definition startsWith :: "jsstring \<Rightarrow> jsstring \<Rightarrow> bool" where
  "startsWith s p = (take (length p) s = p)"

definition padStart :: "nat \<Rightarrow> nat \<Rightarrow> jsstring \<Rightarrow> jsstring" where
  "padStart n c s = replicate (n - length s) c @ s"

definition padEnd :: "nat \<Rightarrow> nat \<Rightarrow> jsstring \<Rightarrow> jsstring" where
  "padEnd n c s = s @ replicate (n - length s) c"

text \<open>\<open>s.split(c)\<close> for a separator of one code unit: never an empty array.\<close>

fun split_acc :: "nat \<Rightarrow> jsstring \<Rightarrow> jsstring \<Rightarrow> jsstring list" where
  "split_acc c cur [] = [rev cur]"
| "split_acc c cur (x # xs) =
     (if x = c then rev cur # split_acc c [] xs else split_acc c (x # cur) xs)"

definition split :: "nat \<Rightarrow> jsstring \<Rightarrow> jsstring list" where
  "split c s = split_acc c [] s"

text \<open>\<open>parts[k]\<close>: \<open>None\<close> is \<open>undefined\<close>, read past the end of the array.\<close>

definition index :: "'a list \<Rightarrow> nat \<Rightarrow> 'a option" where
  "index xs k = (if k < length xs then Some (xs ! k) else None)"

text \<open>
  Numbers. The code reads integers with \<open>parseInt\<close>, which gives an integer or NaN:
  \<open>int option\<close>, with \<open>None\<close> for NaN. The range scan of the heat map starts from
  \<open>Infinity\<close> and \<open>-Infinity\<close>, and the age ratio is a quotient: \<open>'a number\<close>, over
  \<open>int\<close> or \<open>rat\<close>. Finite numbers are exact here (an IEEE double is, for integers up to
  \<open>2 ^ 53\<close>), the sign of zero is not kept, and arrays have no length limit.
\<close>

datatype 'a number = NaN | NegInf | Fin 'a | PosInf

definition num :: "int option \<Rightarrow> int number" where
  "num x = (case x of None \<Rightarrow> NaN | Some i \<Rightarrow> Fin i)"

fun js_lt :: "'a::linorder number \<Rightarrow> 'a number \<Rightarrow> bool" where
  "js_lt NaN _ = False"
| "js_lt _ NaN = False"
| "js_lt (Fin a) (Fin b) = (a < b)"
| "js_lt NegInf NegInf = False"
| "js_lt NegInf _ = True"
| "js_lt PosInf _ = False"
| "js_lt (Fin a) PosInf = True"
| "js_lt (Fin a) NegInf = False"

definition js_gt :: "'a::linorder number \<Rightarrow> 'a number \<Rightarrow> bool" where
  "js_gt a b = js_lt b a"

text \<open>\<open>a !== b\<close> on numbers: NaN differs from everything, itself included.\<close>

definition js_neq :: "'a number \<Rightarrow> 'a number \<Rightarrow> bool" where
  "js_neq a b = (a = NaN \<or> b = NaN \<or> a \<noteq> b)"

fun js_neg :: "'a::uminus number \<Rightarrow> 'a number" where
  "js_neg NaN = NaN"
| "js_neg NegInf = PosInf"
| "js_neg PosInf = NegInf"
| "js_neg (Fin a) = Fin (- a)"

fun js_add :: "'a::plus number \<Rightarrow> 'a number \<Rightarrow> 'a number" where
  "js_add NaN _ = NaN"
| "js_add _ NaN = NaN"
| "js_add (Fin a) (Fin b) = Fin (a + b)"
| "js_add PosInf NegInf = NaN"
| "js_add NegInf PosInf = NaN"
| "js_add PosInf _ = PosInf"
| "js_add NegInf _ = NegInf"
| "js_add (Fin a) PosInf = PosInf"
| "js_add (Fin a) NegInf = NegInf"

definition js_sub :: "'a::{plus,uminus} number \<Rightarrow> 'a number \<Rightarrow> 'a number" where
  "js_sub a b = js_add a (js_neg b)"

text \<open>The sign of a number, for products and quotients with an infinite operand.\<close>

fun js_sign :: "'a::{zero,linorder} number \<Rightarrow> int" where
  "js_sign NaN = 0"
| "js_sign NegInf = - 1"
| "js_sign PosInf = 1"
| "js_sign (Fin a) = (if a < 0 then - 1 else if a = 0 then 0 else 1)"

definition js_inf :: "int \<Rightarrow> 'a number" where
  "js_inf s = (if s < 0 then NegInf else if s = 0 then NaN else PosInf)"

fun js_mul :: "'a::{times,zero,linorder} number \<Rightarrow> 'a number \<Rightarrow> 'a number" where
  "js_mul NaN _ = NaN"
| "js_mul _ NaN = NaN"
| "js_mul (Fin a) (Fin b) = Fin (a * b)"
| "js_mul a b = js_inf (js_sign a * js_sign b)"

text \<open>
  \<open>a / b\<close> on integer-valued numbers. A finite number over an infinite one is zero,
  a nonzero number over zero is infinite, and \<open>0 / 0\<close> and \<open>Infinity / Infinity\<close> are NaN.
\<close>

fun js_div :: "int number \<Rightarrow> int number \<Rightarrow> rat number" where
  "js_div NaN _ = NaN"
| "js_div _ NaN = NaN"
| "js_div (Fin a) (Fin b) =
     (if b = 0 then js_inf (js_sign (Fin a)) else Fin (of_int a / of_int b))"
| "js_div (Fin a) _ = Fin 0"
| "js_div a (Fin b) = js_inf (js_sign a * (if b < 0 then - 1 else 1))"
| "js_div _ _ = NaN"

text \<open>\<open>Math.round\<close>: the nearest integer, a tie going up.\<close>

fun Math_round :: "rat number \<Rightarrow> int number" where
  "Math_round NaN = NaN"
| "Math_round NegInf = NegInf"
| "Math_round PosInf = PosInf"
| "Math_round (Fin q) = Fin \<lfloor>q + 1 / 2\<rfloor>"

text \<open>
  Decimal digits, and \<open>Number.prototype.toString\<close> on integer-valued numbers (the
  exponent notation that JavaScript switches to from \<open>1e21\<close> is not modelled).
\<close>

fun digits :: "nat \<Rightarrow> jsstring" where
  "digits n = (if n < 10 then [48 + n] else digits (n div 10) @ [48 + n mod 10])"

declare digits.simps [simp del]

fun toString :: "int number \<Rightarrow> jsstring" where
  "toString NaN = str ''NaN''"
| "toString PosInf = str ''Infinity''"
| "toString NegInf = str ''-Infinity''"
| "toString (Fin i) = (if i < 0 then 45 # digits (nat (- i)) else digits (nat i))"

text \<open>
  \<open>parseInt(s)\<close> with no radix: leading white space and one sign are dropped, a prefix
  \<open>0x\<close> or \<open>0X\<close> selects radix 16, and the longest run of digits is read; no digit
  at all gives NaN.
\<close>

definition digit_val :: "nat \<Rightarrow> nat \<Rightarrow> nat option" where
  "digit_val R c =
     (let v = (if 48 \<le> c \<and> c \<le> 57 then Some (c - 48)
               else if 97 \<le> c \<and> c \<le> 122 then Some (c - 87)
               else if 65 \<le> c \<and> c \<le> 90 then Some (c - 55)
               else None)
      in case v of None \<Rightarrow> None | Some d \<Rightarrow> if d < R then Some d else None)"

definition digit_of :: "nat \<Rightarrow> nat \<Rightarrow> nat" where
  "digit_of R c = (case digit_val R c of None \<Rightarrow> 0 | Some d \<Rightarrow> d)"

definition parseInt :: "jsstring \<Rightarrow> int option" where
  "parseInt s =
     (let S = dropWhile is_ws s;
          sign = (case S of [] \<Rightarrow> 1 | c # _ \<Rightarrow> if c = 45 then - 1 else (1::int));
          S1 = (case S of [] \<Rightarrow> S | c # r \<Rightarrow> if c = 43 \<or> c = 45 then r else S);
          hex = (case S1 of a # b # _ \<Rightarrow> a = 48 \<and> (b = 120 \<or> b = 88) | _ \<Rightarrow> False);
          R = (if hex then 16 else 10);
          S2 = (if hex then drop 2 S1 else S1);
          Z = takeWhile (\<lambda>c. digit_val R c \<noteq> None) S2
      in if Z = [] then None
         else Some (sign * int (foldl (\<lambda>acc c. acc * R + digit_of R c) 0 Z)))"

text \<open>\<open>parseInt(parts[k])\<close>: a missing field is \<open>undefined\<close>, read as the string "undefined".\<close>

definition parseInt_field :: "jsstring list \<Rightarrow> nat \<Rightarrow> int option" where
  "parseInt_field parts k =
     parseInt (case index parts k of None \<Rightarrow> str ''undefined'' | Some s \<Rightarrow> s)"

section \<open>The blame parser\<close>

text \<open>
  The callback of \<open>getBlameInfo\<close> (extension.ts, lines 186 to 230). A \<open>BlameInfo\<close>
  object is shared by reference between \<open>blameMap\<close> and the entries of \<open>result\<close> and
  is mutated after it was pushed, so the objects live in an explicit heap: an address is
  an index of \<open>heap\<close>, \<open>blameMap\<close> maps a hash to an address, and an entry of
  \<open>result\<close> holds what \<open>blameMap.get(hash)\<close> returned, an address or \<open>undefined\<close>.
\<close>

record BlameInfo =
  hash :: jsstring
  author :: jsstring
  time :: "int option"
  summary :: "jsstring option"

record BlameEntry =
  entry_line :: "int option"
  entry_info :: "nat option"

record parser =
  heap :: "BlameInfo list"
  blameMap :: "jsstring \<rightharpoonup> nat"
  result :: "BlameEntry list"
  currentHash :: jsstring

definition init :: parser where
  "init = \<lparr>heap = [], blameMap = Map.empty, result = [], currentHash = []\<rparr>"

text \<open>The test \<open>/^[0-9a-f]{40}$/\<close>, and the hash of uncommitted lines.\<close>

definition is_hex :: "nat \<Rightarrow> bool" where
  "is_hex c = ((48 \<le> c \<and> c \<le> 57) \<or> (97 \<le> c \<and> c \<le> 102))"

definition is_hash :: "jsstring \<Rightarrow> bool" where
  "is_hash h = (length h = 40 \<and> list_all is_hex h)"

definition zero_hash :: jsstring where
  "zero_hash = str ''0000000000000000000000000000000000000000''"

text \<open>\<open>parts[0]\<close>; the test of a regular expression reads \<open>undefined\<close> as a string.\<close>

definition first_part :: "jsstring list \<Rightarrow> jsstring" where
  "first_part parts = (case index parts 0 of None \<Rightarrow> str ''undefined'' | Some s \<Rightarrow> s)"

definition new_info :: "jsstring \<Rightarrow> BlameInfo" where
  "new_info h = \<lparr>hash = h, author = [], time = Some 0, summary = None\<rparr>"

text \<open>\<open>lineNum + j\<close>, where \<open>lineNum\<close> may be NaN.\<close>

definition plus_int :: "int option \<Rightarrow> int \<Rightarrow> int option" where
  "plus_int x j = (case x of None \<Rightarrow> None | Some n \<Rightarrow> Some (n + j))"

text \<open>
  The loop \<open>for (let j = 0; j < count; j++) result.push(...)\<close> of lines 212 to 214.
  With \<open>count\<close> NaN the test \<open>0 < count\<close> is false and nothing is pushed.
\<close>

function push_loop ::
  "int option \<Rightarrow> int \<Rightarrow> nat option \<Rightarrow> int \<Rightarrow> BlameEntry list \<Rightarrow> BlameEntry list" where
  "push_loop lineNum count ref j res =
     (if j < count
      then push_loop lineNum count ref (j + 1)
             (res @ [\<lparr>entry_line = plus_int lineNum j, entry_info = ref\<rparr>])
      else res)"
  by pat_completeness auto
termination
  by (relation "measure (\<lambda>(lineNum, count, ref, j, res). nat (count - j))") auto

declare push_loop.simps [simp del]

definition push_lines ::
  "int option \<Rightarrow> int option \<Rightarrow> nat option \<Rightarrow> BlameEntry list \<Rightarrow> BlameEntry list" where
  "push_lines lineNum count ref res =
     (case count of None \<Rightarrow> res | Some c \<Rightarrow> push_loop lineNum c ref 0 res)"

text \<open>Lines 200 to 216: a line whose first field is a hash opens a hunk.\<close>

definition open_hunk :: "parser \<Rightarrow> jsstring \<Rightarrow> jsstring list \<Rightarrow> parser" where
  "open_hunk st h parts =
     (let st1 = st\<lparr>currentHash := h\<rparr>;
          lineNum = parseInt_field parts 2;
          count = parseInt_field parts 3;
          st2 = (if blameMap st1 h = None
                 then st1\<lparr>heap := heap st1 @ [new_info h],
                          blameMap := (blameMap st1)(h \<mapsto> length (heap st1))\<rparr>
                 else st1)
      in if h \<noteq> zero_hash
         then st2\<lparr>result := push_lines lineNum count (blameMap st2 h) (result st2)\<rparr>
         else st2)"

text \<open>Lines 222 to 228: the field that a metadata line sets on the object \<open>info\<close>.\<close>

definition set_meta :: "jsstring \<Rightarrow> BlameInfo \<Rightarrow> BlameInfo" where
  "set_meta row i =
     (if startsWith row (str ''author '') then i\<lparr>author := trim (drop 7 row)\<rparr>
      else if startsWith row (str ''author-time '') then i\<lparr>time := parseInt (trim (drop 12 row))\<rparr>
      else if startsWith row (str ''summary '') then i\<lparr>summary := Some (trim (drop 8 row))\<rparr>
      else i)"

definition update_at :: "nat \<Rightarrow> ('a \<Rightarrow> 'a) \<Rightarrow> 'a list \<Rightarrow> 'a list" where
  "update_at a f xs = (if a < length xs then xs[a := f (xs ! a)] else xs)"

text \<open>The body of the loop over the lines of the output, lines 193 to 228.\<close>

definition step :: "parser \<Rightarrow> jsstring \<Rightarrow> parser" where
  "step st row =
     (if row = [] then st
      else let parts = split 32 row; h = first_part parts
           in if is_hash h then open_hunk st h parts
              else (case blameMap st (currentHash st) of
                      None \<Rightarrow> st
                    | Some a \<Rightarrow> st\<lparr>heap := update_at a (set_meta row) (heap st)\<rparr>))"

definition parse_lines :: "parser \<Rightarrow> jsstring list \<Rightarrow> parser" where
  "parse_lines st lns = foldl step st lns"

definition parse :: "jsstring \<Rightarrow> parser" where
  "parse stdout = parse_lines init (split 10 stdout)"

text \<open>
  What the caller receives: the array \<open>result\<close>, each entry with the object its
  reference points to, as it is when the parse is over. \<open>None\<close> stands for an array
  with an entry whose \<open>info\<close> is \<open>undefined\<close> or dangling, which the type
  \<open>BlameLine[]\<close> rules out.
\<close>

record BlameLine =
  line :: "int option"
  info :: BlameInfo

definition deref :: "BlameInfo list \<Rightarrow> BlameEntry \<Rightarrow> BlameLine option" where
  "deref h e =
     (case entry_info e of
        None \<Rightarrow> None
      | Some a \<Rightarrow> (case index h a of
                    None \<Rightarrow> None
                  | Some i \<Rightarrow> Some \<lparr>line = entry_line e, info = i\<rparr>))"

definition getBlameInfo :: "jsstring \<Rightarrow> BlameLine list option" where
  "getBlameInfo stdout = (let st = parse stdout in those (map (deref (heap st)) (result st)))"

section \<open>The heat map\<close>

text \<open>
  \<open>applyDecorations\<close> (lines 245 to 310) and \<open>getColorFromRatio\<close> (lines 317 to 337).
  The editor is reduced to what the function reads and writes: the theme flag, the number
  of lines of the document, and the list of decorations handed to \<open>setDecorations\<close>.
  \<open>Date\<close> belongs to the host and depends on its time zone: \<open>newDate\<close> is a
  parameter giving, for a time value in milliseconds, what the three getters return.
\<close>

record Date =
  getFullYear :: "int number"
  getMonth :: "int number"
  getDate :: "int number"

record DecorationOptions =
  range_line :: nat
  contentText :: jsstring
  backgroundColor :: jsstring
  color :: "jsstring option"

definition GUTTER_WIDTH_CHARS :: nat where
  "GUTTER_WIDTH_CHARS = 18"

definition getColorFromRatio :: "bool \<Rightarrow> rat number \<Rightarrow> jsstring" where
  "getColorFromRatio isDarkTheme ratio =
     (let h = Fin 210;
          s = Math_round (js_sub (Fin 50) (js_mul ratio (Fin 40)));
          l = (if isDarkTheme
               then Math_round (js_sub (Fin 30) (js_mul ratio (Fin 15)))
               else Math_round (js_add (Fin 85) (js_mul ratio (Fin 11))))
      in str ''hsl('' @ toString h @ str '', '' @ toString s @ str ''%, '' @ toString l
           @ str ''%)'')"

text \<open>Lines 249 to 255: one pass over the table, from \<open>(Infinity, -Infinity)\<close>.\<close>

definition scan_time :: "int number \<times> int number \<Rightarrow> BlameLine \<Rightarrow> int number \<times> int number" where
  "scan_time mm l =
     (let t = num (time (info l));
          minTime = (if js_lt t (fst mm) then t else fst mm);
          maxTime = (if js_gt t (snd mm) then t else snd mm)
      in (minTime, maxTime))"

definition time_range :: "BlameLine list \<Rightarrow> int number \<times> int number" where
  "time_range blameLines = foldl scan_time (PosInf, NegInf) blameLines"

text \<open>Lines 258 and 259: a later entry for the same key replaces an earlier one.\<close>

definition lineToBlame :: "BlameLine list \<Rightarrow> (int option \<rightharpoonup> BlameInfo)" where
  "lineToBlame blameLines =
     foldl (\<lambda>m l. m(plus_int (line l) (- 1) \<mapsto> info l)) Map.empty blameLines"

text \<open>Lines 266 and 267.\<close>

definition dateStr :: "(int number \<Rightarrow> Date) \<Rightarrow> BlameInfo \<Rightarrow> jsstring" where
  "dateStr newDate i =
     (let date = newDate (js_mul (num (time i)) (Fin 1000))
      in toString (getFullYear date) @ str ''/''
           @ padStart 2 48 (toString (js_add (getMonth date) (Fin 1))) @ str ''/''
           @ padStart 2 48 (toString (getDate date)))"

text \<open>Lines 269 to 274.\<close>

definition author_field :: "BlameInfo \<Rightarrow> jsstring" where
  "author_field i =
     (let author0 = (if author i \<noteq> [] then author i else str ''Unknown'')
      in if length author0 > 6 then take 6 author0 else padEnd 6 32 author0)"

text \<open>Lines 278 to 281.\<close>

definition age_ratio :: "int number \<Rightarrow> int number \<Rightarrow> BlameInfo \<Rightarrow> rat number" where
  "age_ratio minTime maxTime i =
     (if js_neq maxTime minTime \<and> js_neq minTime PosInf
      then js_div (js_sub maxTime (num (time i))) (js_sub maxTime minTime)
      else Fin 0)"

text \<open>Lines 282 to 294, and the placeholder of lines 297 to 305.\<close>

definition labelled :: "bool \<Rightarrow> (int number \<Rightarrow> Date) \<Rightarrow> nat \<Rightarrow> BlameInfo \<Rightarrow> rat number
    \<Rightarrow> DecorationOptions" where
  "labelled isDarkTheme newDate i bi ratio =
     \<lparr>range_line = i,
      contentText = dateStr newDate bi @ str '' '' @ author_field bi,
      backgroundColor = getColorFromRatio isDarkTheme ratio,
      color = Some (if isDarkTheme then str ''#cccccc'' else str ''#555555'')\<rparr>"

definition placeholder :: "nat \<Rightarrow> DecorationOptions" where
  "placeholder i =
     \<lparr>range_line = i,
      contentText = replicate GUTTER_WIDTH_CHARS 160,
      backgroundColor = str ''transparent'',
      color = None\<rparr>"

definition decoration :: "bool \<Rightarrow> (int number \<Rightarrow> Date) \<Rightarrow> int number \<Rightarrow> int number
    \<Rightarrow> (int option \<rightharpoonup> BlameInfo) \<Rightarrow> nat \<Rightarrow> DecorationOptions" where
  "decoration isDarkTheme newDate minTime maxTime m i =
     (case m (Some (int i)) of
        None \<Rightarrow> placeholder i
      | Some bi \<Rightarrow>
          if js_gt (num (time bi)) (Fin 0)
          then labelled isDarkTheme newDate i bi (age_ratio minTime maxTime bi)
          else placeholder i)"

definition applyDecorations :: "bool \<Rightarrow> (int number \<Rightarrow> Date) \<Rightarrow> nat \<Rightarrow> BlameLine list
    \<Rightarrow> DecorationOptions list" where
  "applyDecorations isDarkTheme newDate lineCount blameLines =
     (let minTime = fst (time_range blameLines);
          maxTime = snd (time_range blameLines);
          m = lineToBlame blameLines
      in map (decoration isDarkTheme newDate minTime maxTime m) [0..<lineCount])"

section \<open>Notions used in the statements\<close>

text \<open>
  A line is a hunk header for the parser as soon as its first field is a hash; the hash
  it opens is that field. A metadata line starts with one of the three keys.
\<close>

definition header_hash :: "jsstring \<Rightarrow> jsstring" where
  "header_hash row = first_part (split 32 row)"

definition is_header :: "jsstring \<Rightarrow> bool" where
  "is_header row = is_hash (header_hash row)"

definition is_meta :: "jsstring \<Rightarrow> bool" where
  "is_meta row =
     (startsWith row (str ''author '') \<or> startsWith row (str ''author-time '')
      \<or> startsWith row (str ''summary ''))"


text \<open>
  The invariant of the parser: \<open>blameMap\<close> and the heap agree on the hash of every
  object, every object is registered under its hash, and every entry of \<open>result\<close> refers
  to an object whose hash is not the hash of uncommitted lines.
\<close>

definition parser_inv :: "parser \<Rightarrow> bool" where
  "parser_inv st =
     ((\<forall>h a. blameMap st h = Some a \<longrightarrow> a < length (heap st) \<and> hash (heap st ! a) = h)
      \<and> (\<forall>a < length (heap st). blameMap st (hash (heap st ! a)) = Some a)
      \<and> (\<forall>e \<in> set (result st). \<exists>a. entry_info e = Some a \<and> a < length (heap st)
            \<and> hash (heap st ! a) \<noteq> zero_hash))"


text \<open>Two hashes for the examples.\<close>

definition hashA :: jsstring where
  "hashA = str ''aaaaaaaaaaaaaaaaaaaaaaaaaaaaaaaaaaaaaaaa''"

definition hashB :: jsstring where
  "hashB = str ''bbbbbbbbbbbbbbbbbbbbbbbbbbbbbbbbbbbbbbbb''"

definition hashC :: jsstring where
  "hashC = str ''cccccccccccccccccccccccccccccccccccccccc''"

text \<open>
  The attribution of the line with the 1-based number \<open>k\<close>, as the table gives it: the
  last entry with that line number.
\<close>

definition attribution :: "BlameLine list \<Rightarrow> int \<Rightarrow> BlameInfo option" where
  "attribution blameLines k =
     (case filter (\<lambda>l. line l = Some k) blameLines of
        [] \<Rightarrow> None
      | x # xs \<Rightarrow> Some (info (last (x # xs))))"


definition positive :: "BlameLine \<Rightarrow> bool" where
  "positive l = (case time (info l) of None \<Rightarrow> False | Some t \<Rightarrow> 0 < t)"

definition is_placeholder :: "DecorationOptions \<Rightarrow> bool" where
  "is_placeholder d =
     (contentText d = replicate 18 160 \<and> backgroundColor d = str ''transparent'' \<and> color d = None)"


text \<open>
  A table for the examples: line 1 of a commit without \<open>author-time\<close>, lines 2 and 3
  of two commits with the times 100 and 200; and a host whose \<open>Date\<close> reads every time
  value as 14 November 2023.
\<close>

definition ex_info :: "jsstring \<Rightarrow> int \<Rightarrow> BlameInfo" where
  "ex_info h t = \<lparr>hash = h, author = str ''Bob'', time = Some t, summary = None\<rparr>"

definition ex_table :: "BlameLine list" where
  "ex_table =
     [\<lparr>line = Some 1, info = new_info hashA\<rparr>,
      \<lparr>line = Some 2, info = ex_info hashB 100\<rparr>,
      \<lparr>line = Some 3, info = ex_info hashC 200\<rparr>]"

definition ex_commit :: "jsstring \<Rightarrow> BlameInfo" where
  "ex_commit a = \<lparr>hash = hashA, author = a, time = Some 1700000000, summary = None\<rparr>"

definition ex_date :: "int number \<Rightarrow> Date" where
  "ex_date ms = \<lparr>getFullYear = Fin 2023, getMonth = Fin 10, getDate = Fin 14\<rparr>"

section \<open>The invariant of the parser\<close>

lemma split_acc_nonempty: "split_acc c cur s \<noteq> []"
  by (induction s arbitrary: cur) auto

lemma hash_set_meta: "hash (set_meta t i) = hash i"
  by (simp add: set_meta_def)

lemma push_loop_eq:
  "push_loop lineNum c r j res =
     res @ map (\<lambda>k. \<lparr>entry_line = plus_int lineNum k, entry_info = r\<rparr>) [j..c - 1]"
proof (induction lineNum c r j res rule: push_loop.induct)
  case (1 lineNum c r j res)
  show ?case
  proof (cases "j < c")
    case True
    then have "[j..c - 1] = j # [j + 1..c - 1]"
      by (simp add: upto_rec1)
    with 1 True show ?thesis
      by (subst push_loop.simps) simp
  next
    case False
    then show ?thesis
      by (subst push_loop.simps) simp
  qed
qed

lemma push_lines_eq:
  "push_lines lineNum count r res =
     res @ (case count of None \<Rightarrow> []
            | Some c \<Rightarrow> map (\<lambda>k. \<lparr>entry_line = plus_int lineNum k, entry_info = r\<rparr>) [0..c - 1])"
  by (simp add: push_lines_def push_loop_eq split: option.splits)

lemma push_lines_set:
  "e \<in> set (push_lines lineNum count r res) \<Longrightarrow> e \<in> set res \<or> entry_info e = r"
  by (auto simp: push_lines_eq split: option.splits)

lemma update_at_length: "length (update_at a f xs) = length xs"
  by (simp add: update_at_def)

lemma update_at_nth:
  "b < length xs \<Longrightarrow> update_at a f xs ! b = (if b = a then f (xs ! a) else xs ! b)"
  by (simp add: update_at_def)

lemma inv_init: "parser_inv init"
  by (simp add: parser_inv_def init_def)

lemma open_hunk_heap:
  "heap (open_hunk st h parts) =
     (if blameMap st h = None then heap st @ [new_info h] else heap st)"
  by (simp add: open_hunk_def Let_def)

lemma open_hunk_blameMap:
  "blameMap (open_hunk st h parts) =
     (if blameMap st h = None then (blameMap st)(h \<mapsto> length (heap st)) else blameMap st)"
  by (simp add: open_hunk_def Let_def)


lemma open_hunk_result:
  "result (open_hunk st h parts) =
     (if h \<noteq> zero_hash
      then push_lines (parseInt_field parts 2) (parseInt_field parts 3)
             (blameMap (open_hunk st h parts) h) (result st)
      else result st)"
  by (simp add: open_hunk_def Let_def)

lemma inv_open_hunk:
  assumes "parser_inv st"
  shows "parser_inv (open_hunk st h parts)"
proof -
  let ?st = "open_hunk st h parts"
  from assms have m: "\<And>k a. blameMap st k = Some a \<Longrightarrow> a < length (heap st) \<and> hash (heap st ! a) = k"
    and o: "\<And>a. a < length (heap st) \<Longrightarrow> blameMap st (hash (heap st ! a)) = Some a"
    and r: "\<And>e. e \<in> set (result st) \<Longrightarrow> \<exists>a. entry_info e = Some a \<and> a < length (heap st)
            \<and> hash (heap st ! a) \<noteq> zero_hash"
    unfolding parser_inv_def by blast+
  have m': "a < length (heap ?st) \<and> hash (heap ?st ! a) = k" if "blameMap ?st k = Some a" for k a
    using that m by (auto simp: open_hunk_heap open_hunk_blameMap nth_append new_info_def
        split: if_splits)
  have o': "blameMap ?st (hash (heap ?st ! a)) = Some a" if "a < length (heap ?st)" for a
  proof (cases "blameMap st h")
    case None
    show ?thesis
    proof (cases "a < length (heap st)")
      case True
      with o[OF True] None show ?thesis
        by (auto simp: open_hunk_heap open_hunk_blameMap nth_append)
    next
      case False
      with that None have "a = length (heap st)"
        by (simp add: open_hunk_heap)
      with None show ?thesis
        by (simp add: open_hunk_heap open_hunk_blameMap new_info_def)
    qed
  next
    case (Some b)
    with that o show ?thesis
      by (simp add: open_hunk_heap open_hunk_blameMap)
  qed
  have old: "\<exists>a. entry_info e = Some a \<and> a < length (heap ?st) \<and> hash (heap ?st ! a) \<noteq> zero_hash"
    if "e \<in> set (result st)" for e
    using r[OF that] by (auto simp: open_hunk_heap nth_append)
  have r': "\<exists>a. entry_info e = Some a \<and> a < length (heap ?st) \<and> hash (heap ?st ! a) \<noteq> zero_hash"
    if "e \<in> set (result ?st)" for e
  proof (cases "h = zero_hash")
    case True
    with that old show ?thesis
      by (simp add: open_hunk_result)
  next
    case False
    with that have "e \<in> set (result st) \<or> entry_info e = blameMap ?st h"
      by (auto simp: open_hunk_result dest: push_lines_set)
    then show ?thesis
    proof
      assume "e \<in> set (result st)"
      then show ?thesis by (rule old)
    next
      assume e: "entry_info e = blameMap ?st h"
      obtain a where a: "blameMap ?st h = Some a"
        by (cases "blameMap st h") (auto simp: open_hunk_blameMap)
      from m'[OF a] a e False show ?thesis by auto
    qed
  qed
  show ?thesis
    unfolding parser_inv_def using m' o' r' by blast
qed

lemma inv_step: "parser_inv st \<Longrightarrow> parser_inv (step st row)"
proof -
  assume w: "parser_inv st"
  have "parser_inv (st\<lparr>heap := update_at a (set_meta row) (heap st)\<rparr>)" for a
    using w unfolding parser_inv_def
    by (auto simp: update_at_length update_at_nth hash_set_meta)
  with w show ?thesis
    by (simp add: step_def Let_def inv_open_hunk split: option.splits)
qed

lemma inv_parse_lines: "parser_inv st \<Longrightarrow> parser_inv (parse_lines st lns)"
  unfolding parse_lines_def
  by (induction lns arbitrary: st) (simp_all add: inv_step)

lemma inv_parse: "parser_inv (parse stdout)"
  by (simp add: parse_def inv_parse_lines inv_init)

section \<open>What the parser returns\<close>

lemma those_map:
  "(\<And>x. x \<in> set xs \<Longrightarrow> f x = Some (g x)) \<Longrightarrow> those (map f xs) = Some (map g xs)"
  by (induction xs) simp_all

lemma getBlameInfo_eq:
  "getBlameInfo stdout =
     Some (map (\<lambda>e. \<lparr>line = entry_line e, info = heap (parse stdout) ! the (entry_info e)\<rparr>)
             (result (parse stdout)))"
proof -
  have "deref (heap (parse stdout)) e =
          Some \<lparr>line = entry_line e, info = heap (parse stdout) ! the (entry_info e)\<rparr>"
    if "e \<in> set (result (parse stdout))" for e
    using inv_parse[of stdout] that unfolding parser_inv_def
    by (fastforce simp: deref_def index_def)
  then show ?thesis
    unfolding getBlameInfo_def Let_def by (rule those_map)
qed

lemma is_hash_zero_hash: "is_hash zero_hash"
  by (simp add: is_hash_def zero_hash_def str_def is_hex_def)

lemma not_is_hash_Nil: "\<not> is_hash []"
  by (simp add: is_hash_def)

lemma header_hash_Nil: "header_hash [] = []"
  by (simp add: header_hash_def split_def first_part_def index_def)

lemma step_header:
  "is_header row \<Longrightarrow> step st row = open_hunk st (header_hash row) (split 32 row)"
  using not_is_hash_Nil header_hash_Nil
  by (auto simp: step_def Let_def is_header_def header_hash_def)

lemma step_other:
  "\<not> is_header row \<Longrightarrow>
   step st row =
     (if row = [] then st
      else case blameMap st (currentHash st) of
             None \<Rightarrow> st
           | Some a \<Rightarrow> st\<lparr>heap := update_at a (set_meta row) (heap st)\<rparr>)"
  by (simp add: step_def Let_def is_header_def header_hash_def)

text \<open>
  C1. Whatever the input, no entry of the returned table has a commit whose hash is the
  hash of 40 zeros; and a header line whose hash is the hash of 40 zeros adds no entry
  to \<open>result\<close>, whatever range it declares.
\<close>

theorem zero_hash_never_attributed:
  "(\<forall>tbl. getBlameInfo stdout = Some tbl \<longrightarrow> (\<forall>l \<in> set tbl. hash (info l) \<noteq> zero_hash))
   \<and> (header_hash row = zero_hash \<longrightarrow> result (step st row) = result st)"
proof (intro conjI allI impI ballI)
  fix tbl l
  assume "getBlameInfo stdout = Some tbl" and "l \<in> set tbl"
  then obtain e where e: "e \<in> set (result (parse stdout))"
    and l: "info l = heap (parse stdout) ! the (entry_info e)"
    by (auto simp: getBlameInfo_eq)
  from inv_parse[of stdout] e l show "hash (info l) \<noteq> zero_hash"
    unfolding parser_inv_def by fastforce
next
  assume z: "header_hash row = zero_hash"
  then have "is_header row"
    by (simp add: is_header_def is_hash_zero_hash)
  then show "result (step st row) = result st"
    by (simp add: step_header z open_hunk_result)
qed

text \<open>The definitions that the evaluation of the parser on a given input unfolds.\<close>

lemmas ev = str_def is_ws_def trim_def startsWith_def padStart_def padEnd_def split_def index_def
  num_def parseInt_def digit_val_def digit_of_def parseInt_field_def init_def is_hex_def is_hash_def zero_hash_def
  first_part_def new_info_def plus_int_def push_lines_eq open_hunk_def set_meta_def update_at_def
  step_def parse_lines_def parse_def deref_def getBlameInfo_def header_hash_def is_header_def
  is_meta_def hashA_def hashB_def hashC_def Let_def upto.simps

text \<open>
  C1 at an input with a hunk of the zero hash on line 1 and a hunk of another hash on
  line 2: only line 2 is in the table.
\<close>

theorem zero_hash_never_attributed_witness:
  "getBlameInfo (str ''0000000000000000000000000000000000000000 1 1 1\<newline>aaaaaaaaaaaaaaaaaaaaaaaaaaaaaaaaaaaaaaaa 1 2 1'')
     = Some [\<lparr>line = Some 2, info = new_info hashA\<rparr>]
   \<and> hash (info \<lparr>line = Some 2, info = new_info hashA\<rparr>) \<noteq> zero_hash
   \<and> header_hash (str ''0000000000000000000000000000000000000000 1 1 1'') = zero_hash
   \<and> result (step init (str ''0000000000000000000000000000000000000000 1 1 1'')) = result init"
proof -
  have t: "getBlameInfo (str ''0000000000000000000000000000000000000000 1 1 1\<newline>aaaaaaaaaaaaaaaaaaaaaaaaaaaaaaaaaaaaaaaa 1 2 1'')
     = Some [\<lparr>line = Some 2, info = new_info hashA\<rparr>]"
    by (simp add: ev)
  have h: "header_hash (str ''0000000000000000000000000000000000000000 1 1 1'') = zero_hash"
    by (simp add: ev)
  from zero_hash_never_attributed
    [of "str ''0000000000000000000000000000000000000000 1 1 1\<newline>aaaaaaaaaaaaaaaaaaaaaaaaaaaaaaaaaaaaaaaa 1 2 1''"
        "str ''0000000000000000000000000000000000000000 1 1 1''" init] t h
  show ?thesis by simp
qed










text \<open>
  C5. In the result of a parse, two entries whose objects carry the same hash hold the
  same address; every entry holds the address that \<open>blameMap\<close> gives for the hash of
  its object; and all entries that one line of the input appends hold one and the same
  reference.
\<close>

theorem commit_info_shared:
  "(\<forall>e1 \<in> set (result (parse stdout)). \<forall>e2 \<in> set (result (parse stdout)). \<forall>a1 a2.
      entry_info e1 = Some a1 \<and> entry_info e2 = Some a2
      \<and> hash (heap (parse stdout) ! a1) = hash (heap (parse stdout) ! a2) \<longrightarrow> a1 = a2)
   \<and> (\<forall>e \<in> set (result (parse stdout)). \<exists>a. entry_info e = Some a
        \<and> a < length (heap (parse stdout))
        \<and> blameMap (parse stdout) (hash (heap (parse stdout) ! a)) = Some a)
   \<and> (\<exists>r es. result (step st row) = result st @ es \<and> (\<forall>e \<in> set es. entry_info e = r))"
proof (intro conjI)
  let ?st = "parse stdout"
  have reg: "\<exists>a. entry_info e = Some a \<and> a < length (heap ?st)
      \<and> blameMap ?st (hash (heap ?st ! a)) = Some a" if "e \<in> set (result ?st)" for e
  proof -
    from inv_parse[of stdout] that obtain a where a: "entry_info e = Some a" "a < length (heap ?st)"
      unfolding parser_inv_def by blast
    moreover from inv_parse[of stdout] a have "blameMap ?st (hash (heap ?st ! a)) = Some a"
      unfolding parser_inv_def by blast
    ultimately show ?thesis by blast
  qed
  then show "\<forall>e \<in> set (result ?st). \<exists>a. entry_info e = Some a \<and> a < length (heap ?st)
        \<and> blameMap ?st (hash (heap ?st ! a)) = Some a"
    by blast
  show "\<forall>e1 \<in> set (result ?st). \<forall>e2 \<in> set (result ?st). \<forall>a1 a2.
      entry_info e1 = Some a1 \<and> entry_info e2 = Some a2
      \<and> hash (heap ?st ! a1) = hash (heap ?st ! a2) \<longrightarrow> a1 = a2"
  proof (intro ballI allI impI)
    fix e1 e2 a1 a2
    assume e1: "e1 \<in> set (result ?st)" and e2: "e2 \<in> set (result ?st)"
      and h: "entry_info e1 = Some a1 \<and> entry_info e2 = Some a2
        \<and> hash (heap ?st ! a1) = hash (heap ?st ! a2)"
    from reg[OF e1] h have "blameMap ?st (hash (heap ?st ! a1)) = Some a1" by auto
    moreover from reg[OF e2] h have "blameMap ?st (hash (heap ?st ! a2)) = Some a2" by auto
    ultimately show "a1 = a2" using h by (metis option.inject)
  qed
  show "\<exists>r es. result (step st row) = result st @ es \<and> (\<forall>e \<in> set es. entry_info e = r)"
  proof (cases "is_header row")
    case True
    then have eq: "result (step st row) = result (open_hunk st (header_hash row) (split 32 row))"
      by (simp add: step_header)
    have "\<exists>r es. result (open_hunk st (header_hash row) (split 32 row)) = result st @ es
        \<and> (\<forall>e \<in> set es. entry_info e = r)"
    proof (cases "header_hash row = zero_hash")
      case True
      then have "result (open_hunk st (header_hash row) (split 32 row)) = result st @ []"
        by (simp add: open_hunk_result)
      then show ?thesis
        by (intro exI[of _ None] exI[of _ "[]"]) simp
    next
      case False
      show ?thesis
      proof (cases "parseInt_field (split 32 row) 3")
        case None
        with False have "result (open_hunk st (header_hash row) (split 32 row)) = result st @ []"
          by (simp add: open_hunk_result push_lines_eq)
        then show ?thesis
          by (intro exI[of _ None] exI[of _ "[]"]) simp
      next
        case (Some c)
        let ?r = "blameMap (open_hunk st (header_hash row) (split 32 row)) (header_hash row)"
        let ?es = "map (\<lambda>k. \<lparr>entry_line = plus_int (parseInt_field (split 32 row) 2) k,
                     entry_info = ?r\<rparr>) [0..c - 1]"
        from False Some
        have "result (open_hunk st (header_hash row) (split 32 row)) = result st @ ?es"
          by (simp add: open_hunk_result push_lines_eq)
        moreover have "\<forall>e \<in> set ?es. entry_info e = ?r"
          by auto
        ultimately show ?thesis by blast
      qed
    qed
    with eq show ?thesis by simp
  next
    case False
    then have "result (step st row) = result st @ []"
      by (simp add: step_other split: option.splits)
    then show ?thesis
      by (intro exI[of _ None] exI[of _ "[]"]) simp
  qed
qed

text \<open>
  C5 at an input with two hunks of one hash around a hunk of another: the heap has two
  objects, and lines 1, 2 and 4 hold address 0.
\<close>

theorem commit_info_shared_witness:
  "result (parse (hashA @ str '' 1 1 2\<newline>'' @ hashB @ str '' 3 3 1\<newline>'' @ hashA @ str '' 5 4 1''))
     = [\<lparr>entry_line = Some 1, entry_info = Some 0\<rparr>, \<lparr>entry_line = Some 2, entry_info = Some 0\<rparr>,
        \<lparr>entry_line = Some 3, entry_info = Some 1\<rparr>, \<lparr>entry_line = Some 4, entry_info = Some 0\<rparr>]
   \<and> heap (parse (hashA @ str '' 1 1 2\<newline>'' @ hashB @ str '' 3 3 1\<newline>'' @ hashA @ str '' 5 4 1''))
     = [new_info hashA, new_info hashB]
   \<and> blameMap (parse (hashA @ str '' 1 1 2\<newline>'' @ hashB @ str '' 3 3 1\<newline>'' @ hashA @ str '' 5 4 1''))
        hashA = Some 0
   \<and> (\<exists>r es. result (step init (hashA @ str '' 1 1 2'')) = result init @ es
         \<and> (\<forall>e \<in> set es. entry_info e = r))"
proof -
  let ?X = "hashA @ str '' 1 1 2\<newline>'' @ hashB @ str '' 3 3 1\<newline>'' @ hashA @ str '' 5 4 1''"
  have r: "result (parse ?X)
     = [\<lparr>entry_line = Some 1, entry_info = Some 0\<rparr>, \<lparr>entry_line = Some 2, entry_info = Some 0\<rparr>,
        \<lparr>entry_line = Some 3, entry_info = Some 1\<rparr>, \<lparr>entry_line = Some 4, entry_info = Some 0\<rparr>]"
    by (simp add: ev)
  have h: "heap (parse ?X) = [new_info hashA, new_info hashB]"
    by (simp add: ev)
  note s = commit_info_shared[of ?X init "hashA @ str '' 1 1 2''"]
  from conjunct1[OF conjunct2[OF s]] r h
  have "blameMap (parse ?X) hashA = Some 0"
    by (simp add: new_info_def)
  with r h conjunct2[OF conjunct2[OF s]] show ?thesis
    by simp
qed

section \<open>Metadata lines and the current hash\<close>















section \<open>A header without a numeric count\<close>





section \<open>The table as the heat map reads it\<close>

lemma lineToBlame_snoc:
  "lineToBlame (bl @ [l]) = (lineToBlame bl)(plus_int (line l) (- 1) \<mapsto> info l)"
  by (simp add: lineToBlame_def)

lemma attribution_last:
  "attribution bl k =
     (if filter (\<lambda>l. line l = Some k) bl = [] then None
      else Some (info (last (filter (\<lambda>l. line l = Some k) bl))))"
  by (simp add: attribution_def split: list.splits)

lemma attribution_snoc:
  "attribution (bl @ [l]) k = (if line l = Some k then Some (info l) else attribution bl k)"
  by (simp add: attribution_last)

lemma plus_int_minus_one: "plus_int x (- 1) = Some (k - 1) \<longleftrightarrow> x = Some k"
  by (auto simp: plus_int_def split: option.splits)

lemma plus_int_minus_one_sym: "Some (k - 1) = plus_int x (- 1) \<longleftrightarrow> x = Some k"
  by (auto simp: plus_int_def split: option.splits)

lemma lineToBlame_attribution: "lineToBlame bl (Some (k - 1)) = attribution bl k"
proof (induction bl rule: rev_induct)
  case Nil
  show ?case by (simp add: lineToBlame_def attribution_def)
next
  case (snoc l bl)
  then show ?case
    by (simp add: lineToBlame_snoc attribution_snoc plus_int_minus_one plus_int_minus_one_sym)
qed

lemma lineToBlame_index: "lineToBlame bl (Some (int i)) = attribution bl (int i + 1)"
  using lineToBlame_attribution[of bl "int i + 1"] by simp







lemma length_applyDecorations: "length (applyDecorations d nd n bl) = n"
  by (simp add: applyDecorations_def Let_def)

lemma js_gt_zero: "js_gt (num x) (Fin 0) \<longleftrightarrow> (\<exists>t. x = Some t \<and> 0 < t)"
  by (cases x) (simp_all add: js_gt_def num_def)

lemma applyDecorations_nth:
  assumes "i < n"
  shows "applyDecorations d nd n bl ! i =
     (case attribution bl (int i + 1) of
        None \<Rightarrow> placeholder i
      | Some bi \<Rightarrow>
          if \<exists>t. time bi = Some t \<and> 0 < t
          then labelled d nd i bi (age_ratio (fst (time_range bl)) (snd (time_range bl)) bi)
          else placeholder i)"
  using assms
  by (simp add: applyDecorations_def Let_def decoration_def lineToBlame_index js_gt_zero
      split: option.splits)

lemma not_placeholder_labelled: "\<not> is_placeholder (labelled d nd i bi r)"
  by (simp add: is_placeholder_def labelled_def)

lemma is_placeholder_placeholder: "is_placeholder (placeholder i)"
  by (simp add: is_placeholder_def placeholder_def GUTTER_WIDTH_CHARS_def)

section \<open>One decoration per line\<close>

text \<open>The definitions that the evaluation of the heat map on a given table unfolds.\<close>

lemmas ev_heat = applyDecorations_def decoration_def lineToBlame_def time_range_def scan_time_def
  js_gt_def js_neq_def js_sub_def age_ratio_def labelled_def placeholder_def is_placeholder_def
  getColorFromRatio_def dateStr_def author_field_def GUTTER_WIDTH_CHARS_def attribution_def
  ex_table_def ex_info_def ex_commit_def ex_date_def positive_def Let_def

text \<open>
  C7, amended. There is one decoration per line index below \<open>lineCount\<close>, in order,
  and the decoration of index \<open>i\<close> is the placeholder exactly when line \<open>i + 1\<close>
  has no attribution whose time stamp is greater than 0: no attribution at all, or a
  time stamp that is 0, negative or NaN.
\<close>

theorem one_decoration_per_line:
  "length (applyDecorations d nd n bl) = n
   \<and> (\<forall>i<n. range_line (applyDecorations d nd n bl ! i) = i
        \<and> (is_placeholder (applyDecorations d nd n bl ! i) \<longleftrightarrow>
             \<not> (\<exists>bi t. attribution bl (int i + 1) = Some bi \<and> time bi = Some t \<and> 0 < t))
        \<and> (is_placeholder (applyDecorations d nd n bl ! i) \<longrightarrow>
             applyDecorations d nd n bl ! i = placeholder i))"
proof (intro conjI allI impI)
  show "length (applyDecorations d nd n bl) = n"
    by (rule length_applyDecorations)
next
  fix i
  assume i: "i < n"
  show "range_line (applyDecorations d nd n bl ! i) = i"
    by (simp add: applyDecorations_nth[OF i] labelled_def placeholder_def split: option.splits)
  show "is_placeholder (applyDecorations d nd n bl ! i) \<longleftrightarrow>
          \<not> (\<exists>bi t. attribution bl (int i + 1) = Some bi \<and> time bi = Some t \<and> 0 < t)"
    by (auto simp: applyDecorations_nth[OF i] not_placeholder_labelled is_placeholder_placeholder
        split: option.splits)
  show "applyDecorations d nd n bl ! i = placeholder i"
    if "is_placeholder (applyDecorations d nd n bl ! i)"
    using that
    by (auto simp: applyDecorations_nth[OF i] not_placeholder_labelled split: option.splits if_splits)
qed

text \<open>C7, amended, on the example table and a document of four lines.\<close>

theorem one_decoration_per_line_witness:
  "length (applyDecorations False ex_date 4 ex_table) = 4
   \<and> (1::nat) < 4
   \<and> attribution ex_table (int 1 + 1) = Some (ex_info hashB 100)
   \<and> range_line (applyDecorations False ex_date 4 ex_table ! 1) = 1
   \<and> \<not> is_placeholder (applyDecorations False ex_date 4 ex_table ! 1)
   \<and> (3::nat) < 4
   \<and> attribution ex_table (int 3 + 1) = None
   \<and> applyDecorations False ex_date 4 ex_table ! 3 = placeholder 3"
proof -
  have a1: "attribution ex_table (int 1 + 1) = Some (ex_info hashB 100)"
    by (simp add: ev_heat)
  have t1: "time (ex_info hashB 100) = Some 100"
    by (simp add: ex_info_def)
  have a3: "attribution ex_table (int 3 + 1) = None"
    by (simp add: ev_heat)
  from one_decoration_per_line[of False ex_date 4 ex_table] a1 t1 a3 show ?thesis
    by auto
qed

text \<open>
  C7 as stated fails: after \<open>author-time -5\<close> line 1 has an attribution whose time
  stamp is not 0, and its decoration is the placeholder.
\<close>

theorem negative_time_placeholder_counterexample:
  "getBlameInfo (hashA @ str '' 1 1 1\<newline>author-time -5'')
     = Some [\<lparr>line = Some 1,
               info = \<lparr>hash = hashA, author = [], time = Some (- 5), summary = None\<rparr>\<rparr>]
   \<and> attribution [\<lparr>line = Some 1,
               info = \<lparr>hash = hashA, author = [], time = Some (- 5), summary = None\<rparr>\<rparr>] 1
       = Some \<lparr>hash = hashA, author = [], time = Some (- 5), summary = None\<rparr>
   \<and> Some (- 5) \<noteq> Some (0::int)
   \<and> is_placeholder (applyDecorations False ex_date 1
        [\<lparr>line = Some 1,
          info = \<lparr>hash = hashA, author = [], time = Some (- 5), summary = None\<rparr>\<rparr>] ! 0)"
proof (intro conjI)
  show "getBlameInfo (hashA @ str '' 1 1 1\<newline>author-time -5'')
     = Some [\<lparr>line = Some 1,
               info = \<lparr>hash = hashA, author = [], time = Some (- 5), summary = None\<rparr>\<rparr>]"
    by (simp add: ev)
qed (simp_all add: ev_heat plus_int_def num_def)

section \<open>The range of time stamps\<close>











section \<open>The label\<close>








lemma contentText_labelled:
  assumes "i < n" and "attribution bl (int i + 1) = Some bi" and "time bi = Some t" and "0 < t"
  shows "contentText (applyDecorations d nd n bl ! i) = dateStr nd bi @ str '' '' @ author_field bi"
  using assms by (simp add: applyDecorations_nth labelled_def)


text \<open>
  C9. For a line whose attribution has a time stamp above 0 and an empty author, the
  label is the date, a space and "Unknow".
\<close>

theorem empty_author_is_unknown:
  assumes "i < n" and "attribution bl (int i + 1) = Some bi" and "time bi = Some t" and "0 < t"
    and "author bi = []"
  shows "contentText (applyDecorations d nd n bl ! i) = dateStr nd bi @ str '' Unknow''
     \<and> author_field bi = str ''Unknow''
     \<and> drop (length (dateStr nd bi) + 1) (contentText (applyDecorations d nd n bl ! i))
         = str ''Unknow''"
proof -
  have af: "author_field bi = str ''Unknow''"
    using assms(5) by (simp add: author_field_def Let_def padEnd_def str_def)
  have "contentText (applyDecorations d nd n bl ! i) = dateStr nd bi @ str '' '' @ author_field bi"
    using assms(1-4) by (rule contentText_labelled)
  with af show ?thesis
    by (simp add: str_def)
qed



text \<open>C9 for a commit with the time 1700000000 and no author.\<close>

theorem empty_author_is_unknown_witness:
  "(0::nat) < 1
   \<and> attribution [\<lparr>line = Some 1, info = ex_commit []\<rparr>] (int 0 + 1) = Some (ex_commit [])
   \<and> time (ex_commit []) = Some 1700000000 \<and> (0::int) < 1700000000
   \<and> author (ex_commit []) = []
   \<and> dateStr ex_date (ex_commit []) = str ''2023/11/14''
   \<and> contentText (applyDecorations True ex_date 1 [\<lparr>line = Some 1, info = ex_commit []\<rparr>] ! 0)
       = str ''2023/11/14'' @ str '' Unknow''"
proof -
  have i: "(0::nat) < 1" and pos: "(0::int) < 1700000000"
    by simp_all
  have a: "attribution [\<lparr>line = Some 1, info = ex_commit []\<rparr>] (int 0 + 1) = Some (ex_commit [])"
    by (simp add: attribution_def)
  have t: "time (ex_commit []) = Some 1700000000" and au: "author (ex_commit []) = []"
    by (simp_all add: ex_commit_def)
  have d: "dateStr ex_date (ex_commit []) = str ''2023/11/14''"
    by code_simp
  from empty_author_is_unknown[OF i a t pos au, of True ex_date] d
  have "contentText (applyDecorations True ex_date 1 [\<lparr>line = Some 1, info = ex_commit []\<rparr>] ! 0)
       = str ''2023/11/14'' @ str '' Unknow''"
    by simp
  with i a t pos au d show ?thesis
    by blast
qed

end
